theory Spec2Isabelle
  imports Complex_Main "HOL-Library.Multiset"
begin

unbundle bit_operations_syntax

section \<open>Python values used by \<^verbatim>\<open>main.py\<close>\<close>

text \<open>
  The program is a single Python file. Python integers are unbounded and are modelled as
  \<^typ>\<open>int\<close>. A Python \<^verbatim>\<open>str\<close> is modelled as a \<^typ>\<open>string\<close> whose
  characters are the code points below 256. The two exceptions the modelled code can raise
  are values of \<open>py_error\<close>; a computation that may raise returns \<open>py_error + 'a\<close>.
\<close>

datatype py_error = ValueError | IndexError

definition bind_err :: "py_error + 'a \<Rightarrow> ('a \<Rightarrow> py_error + 'b) \<Rightarrow> py_error + 'b" where
  "bind_err m f = (case m of Inl e \<Rightarrow> Inl e | Inr x \<Rightarrow> f x)"

text \<open>A \<^verbatim>\<open>for\<close> loop whose body may raise: the first exception leaves the loop.\<close>

fun for_each :: "('s \<Rightarrow> 'a \<Rightarrow> py_error + 's) \<Rightarrow> 'a list \<Rightarrow> 's \<Rightarrow> py_error + 's" where
  "for_each body [] s = Inr s"
| "for_each body (x # xs) s = bind_err (body s x) (for_each body xs)"

text \<open>
  \<^verbatim>\<open>xs[i]\<close> on a list: a negative index counts from the end, an index out of range raises
  \<^verbatim>\<open>IndexError\<close>.
\<close>

definition py_index :: "'a list \<Rightarrow> int \<Rightarrow> py_error + 'a" where
  "py_index xs i =
     (let j = (if i < 0 then i + int (length xs) else i)
      in if j < 0 \<or> int (length xs) \<le> j then Inl IndexError else Inr (xs ! nat j))"

text \<open>\<^verbatim>\<open>ord(c)\<close> of a one-character string.\<close>

definition py_ord :: "char \<Rightarrow> int" where
  "py_ord c = of_char c"

subsection \<open>\<^verbatim>\<open>int(s)\<close> on a string\<close>

text \<open>
  \<^verbatim>\<open>int(s)\<close> in base 10 accepts: optional white space, an optional sign, decimal digits
  with single underscores allowed between two digits, optional white space. Anything else
  raises \<^verbatim>\<open>ValueError\<close>. The white space that \<^verbatim>\<open>int\<close> skips is tab, line feed,
  vertical tab, form feed, carriage return and space, and of the code points from 127 to
  255 the two Unicode spaces U+0085 and U+00A0. CPython (3.11 and later, with the default
  setting) also raises \<^verbatim>\<open>ValueError\<close> when the literal has more than 4300 digits.
\<close>

definition is_space :: "char \<Rightarrow> bool" where
  "is_space c = (of_char c \<in> set [9, 10, 11, 12, 13, 32, 133, 160 :: nat])"

definition is_digit :: "char \<Rightarrow> bool" where
  "is_digit c = (48 \<le> (of_char c :: nat) \<and> (of_char c :: nat) \<le> 57)"

definition digit_value :: "char \<Rightarrow> int" where
  "digit_value c = int (of_char c) - 48"

fun digits_ok :: "string \<Rightarrow> bool" where
  "digits_ok [] = False"
| "digits_ok [c] = is_digit c"
| "digits_ok (c # d # cs) =
     (is_digit c \<and> (if d = CHR ''_'' then digits_ok cs else digits_ok (d # cs)))"

definition int_max_str_digits :: nat where
  "int_max_str_digits = 4300"

definition split_sign :: "string \<Rightarrow> bool \<times> string" where
  "split_sign t =
     (case t of
        [] \<Rightarrow> (False, t)
      | c # r \<Rightarrow> if c = CHR ''+'' then (False, r)
                 else if c = CHR ''-'' then (True, r)
                 else (False, t))"

definition py_int :: "string \<Rightarrow> py_error + int" where
  "py_int s =
     (let (neg, u) = split_sign (dropWhile is_space s);
          body = rev (dropWhile is_space (rev u));
          ds = filter is_digit body;
          n = foldl (\<lambda>acc c. 10 * acc + digit_value c) 0 ds
      in if digits_ok body \<and> length ds \<le> int_max_str_digits
         then Inr (if neg then - n else n)
         else Inl ValueError)"

section \<open>The card model\<close>

definition classNames :: "string list" where
  "classNames =
     [''10C'', ''10D'', ''10H'', ''10S'',
      ''2C'', ''2D'', ''2H'', ''2S'',
      ''3C'', ''3D'', ''3H'', ''3S'',
      ''4C'', ''4D'', ''4H'', ''4S'',
      ''5C'', ''5D'', ''5H'', ''5S'',
      ''6C'', ''6D'', ''6H'', ''6S'',
      ''7C'', ''7D'', ''7H'', ''7S'',
      ''8C'', ''8D'', ''8H'', ''8S'',
      ''9C'', ''9D'', ''9H'', ''9S'',
      ''AC'', ''AD'', ''AH'', ''AS'',
      ''JC'', ''JD'', ''JH'', ''JS'',
      ''KC'', ''KD'', ''KH'', ''KS'',
      ''QC'', ''QD'', ''QH'', ''QS'']"

section \<open>Hand evaluation: \<^verbatim>\<open>calculate_blackjack_value\<close>\<close>

text \<open>
  The body of the \<^verbatim>\<open>for card in hand\<close> loop, on the pair \<open>(value, aces)\<close>.
  \<^verbatim>\<open>card[:-1]\<close> is the string without its last character (empty for the empty string);
  the loop variable \<^verbatim>\<open>card\<close> is written \<open>c\<close>.
\<close>

definition card_step :: "int \<times> int \<Rightarrow> string \<Rightarrow> py_error + int \<times> int" where
  "card_step s c =
     (case s of (value, aces) \<Rightarrow>
        let rank = butlast c in
        if rank \<in> set [''K'', ''Q'', ''J''] then Inr (value + 10, aces)
        else if rank = ''A'' then Inr (value + 11, aces + 1)
        else bind_err (py_int rank) (\<lambda>n. Inr (value + n, aces)))"

text \<open>
  The cards on which the loop body raises: the rank is none of K, Q, J and A, and
  \<^verbatim>\<open>int(rank)\<close> raises.
\<close>

definition rank_rejected :: "string \<Rightarrow> bool" where
  "rank_rejected c =
     (butlast c \<notin> set [''K'', ''Q'', ''J''] \<and> butlast c \<noteq> ''A''
      \<and> py_int (butlast c) = Inl ValueError)"

text \<open>
  The loop \<^verbatim>\<open>while value > 21 and aces > 0\<close>. The counter \<open>aces\<close> decreases in every
  iteration, which is the termination argument.
\<close>

function ace_adjust :: "int \<Rightarrow> int \<Rightarrow> int" where
  "ace_adjust value aces =
     (if value > 21 \<and> aces > 0 then ace_adjust (value - 10) (aces - 1) else value)"
  by pat_completeness auto
termination
  by (relation "measure (\<lambda>(value, aces). nat aces)") auto

declare ace_adjust.simps [simp del]

definition calculate_blackjack_value :: "string list \<Rightarrow> py_error + int" where
  "calculate_blackjack_value hand =
     bind_err (for_each card_step hand (0, 0)) (\<lambda>(value, aces). Inr (ace_adjust value aces))"

text \<open>
  The same loop with a counter of its iterations, as a function that may fail to return:
  \<open>None\<close> stands for a loop that runs forever.
\<close>

partial_function (option) ace_loop :: "int \<Rightarrow> int \<Rightarrow> nat \<Rightarrow> (int \<times> int \<times> nat) option" where
  "ace_loop value aces iters =
     (if value > 21 \<and> aces > 0 then ace_loop (value - 10) (aces - 1) (Suc iters)
      else Some (value, aces, iters))"

declare ace_loop.simps [code]

text \<open>The test \<^verbatim>\<open>value > 21\<close> that the program uses for a bust.\<close>

definition is_bust :: "int \<Rightarrow> bool" where
  "is_bust v = (v > 21)"

section \<open>Zones and the hands of one frame\<close>

datatype zone = Dealer | Player

definition dealer_zone :: "int \<Rightarrow> int \<Rightarrow> int \<times> int \<times> int \<times> int" where
  "dealer_zone width height = (0, 0, width, height div 2)"

definition player_zone :: "int \<Rightarrow> int \<Rightarrow> int \<times> int \<times> int \<times> int" where
  "player_zone width height = (0, height div 2, width, height)"

text \<open>
  The zone test of the main loop: \<^verbatim>\<open>if y1 < dealer_zone[3]\<close>, \<^verbatim>\<open>elif y1 >= player_zone[1]\<close>,
  and no \<^verbatim>\<open>else\<close>: a box that passes neither test is given to no hand.
\<close>

definition classify :: "int \<Rightarrow> int \<Rightarrow> int \<Rightarrow> zone option" where
  "classify top_y width height =
     (case dealer_zone width height of (_, _, _, dz3) \<Rightarrow>
      case player_zone width height of (_, pz1, _, _) \<Rightarrow>
        if top_y < dz3 then Some Dealer
        else if top_y \<ge> pz1 then Some Player
        else None)"

text \<open>
  A detected box, after the conversions by \<^verbatim>\<open>int(...)\<close> of its coordinates and of its
  class index.
\<close>

record box =
  cls :: int
  x1 :: int
  y1 :: int
  x2 :: int
  y2 :: int

text \<open>The card name of a box: \<^verbatim>\<open>card = classNames[cls]\<close>.\<close>

definition box_card :: "box \<Rightarrow> py_error + string" where
  "box_card b = py_index classNames (cls b)"

definition assign_box ::
  "int \<Rightarrow> int \<Rightarrow> string list \<times> string list \<Rightarrow> box \<Rightarrow> py_error + string list \<times> string list" where
  "assign_box width height hands b =
     (case hands of (dealer_hand, player_hand) \<Rightarrow>
        bind_err (box_card b) (\<lambda>c.
          case classify (y1 b) width height of
            Some Dealer \<Rightarrow> Inr (dealer_hand @ [c], player_hand)
          | Some Player \<Rightarrow> Inr (dealer_hand, player_hand @ [c])
          | None \<Rightarrow> Inr (dealer_hand, player_hand)))"

text \<open>The two nested loops over the results and over the boxes of each result.\<close>

definition collect_hands ::
  "int \<Rightarrow> int \<Rightarrow> box list list \<Rightarrow> py_error + string list \<times> string list" where
  "collect_hands width height results =
     for_each (assign_box width height) (concat results) ([], [])"

text \<open>
  \<^verbatim>\<open>list(set(xs))\<close>: the elements of \<open>xs\<close>, each once. Python leaves the order of the
  resulting list open; \<open>is_list_of_set xs ys\<close> says that \<open>ys\<close> is one of the lists it may
  return, and \<open>py_list_set\<close> is the one the model computes with.
\<close>

definition is_list_of_set :: "'a list \<Rightarrow> 'a list \<Rightarrow> bool" where
  "is_list_of_set xs ys = (distinct ys \<and> set ys = set xs)"

definition py_list_set :: "'a list \<Rightarrow> 'a list" where
  "py_list_set xs = remdups xs"

definition aggregate ::
  "int \<Rightarrow> int \<Rightarrow> box list list \<Rightarrow> py_error + string list \<times> string list" where
  "aggregate width height results =
     bind_err (collect_hands width height results) (\<lambda>(dealer_hand, player_hand).
       Inr (py_list_set dealer_hand, py_list_set player_hand))"

text \<open>The hand of a zone in the pair (dealer's hand, player's hand).\<close>

fun hand_of :: "zone \<Rightarrow> string list \<times> string list \<Rightarrow> string list" where
  "hand_of Dealer (dealer_hand, player_hand) = dealer_hand"
| "hand_of Player (dealer_hand, player_hand) = player_hand"

text \<open>The boxes of a frame that show the card \<open>c\<close> with their top edge in the zone \<open>z\<close>.\<close>

definition detected_in ::
  "zone \<Rightarrow> string \<Rightarrow> int \<Rightarrow> int \<Rightarrow> box list list \<Rightarrow> box list" where
  "detected_in z c width height results =
     filter (\<lambda>b. box_card b = Inr c \<and> classify (y1 b) width height = Some z) (concat results)"

section \<open>The game state and one iteration of the main loop\<close>

record game_state =
  game_over :: bool
  winner_message :: string

definition initial_state :: game_state where
  "initial_state = \<lparr>game_over = False, winner_message = ''''\<rparr>"

text \<open>
  What one iteration reads: the shape of the image, the boxes of each detection result and
  the value returned by \<^verbatim>\<open>cv2.waitKey(1)\<close>.
\<close>

record frame =
  shape_height :: int
  shape_width :: int
  detections :: "box list list"
  waitKey :: int

text \<open>
  The values \<^verbatim>\<open>dealer_value\<close> and \<^verbatim>\<open>player_value\<close> of an iteration: both start at 0 and
  are assigned only under \<^verbatim>\<open>if not game_over\<close>, each only when its hand is not empty.
\<close>

definition live_values :: "bool \<Rightarrow> string list \<Rightarrow> string list \<Rightarrow> py_error + int \<times> int" where
  "live_values over dealer_hand player_hand =
     (let dealer_value = 0; player_value = 0 in
      if \<not> over then
        bind_err (if dealer_hand \<noteq> [] then calculate_blackjack_value dealer_hand
                  else Inr dealer_value) (\<lambda>dealer_value.
        bind_err (if player_hand \<noteq> [] then calculate_blackjack_value player_hand
                  else Inr player_value) (\<lambda>player_value.
        Inr (dealer_value, player_value)))
      else Inr (dealer_value, player_value))"

definition frame_values :: "game_state \<Rightarrow> frame \<Rightarrow> py_error + int \<times> int" where
  "frame_values st f =
     bind_err (aggregate (shape_width f) (shape_height f) (detections f))
       (\<lambda>(dealer_hand, player_hand). live_values (game_over st) dealer_hand player_hand)"

text \<open>The chain of tests under \<^verbatim>\<open>if key == ord('S')\<close>.\<close>

definition decide_winner :: "int \<Rightarrow> int \<Rightarrow> string" where
  "decide_winner dealer_value player_value =
     (if dealer_value > 21 \<and> player_value > 21 then ''Both players busted! No winner.''
      else if dealer_value > 21 then ''Dealer busted! Player wins!''
      else if player_value > 21 then ''Player busted! Dealer wins!''
      else if dealer_value > player_value then ''Dealer wins!''
      else if player_value > dealer_value then ''Player wins!''
      else ''It's a draw!'')"

text \<open>
  The three key tests at the end of an iteration, in their order. The second component of
  the result says whether the iteration ends with \<^verbatim>\<open>break\<close>.
\<close>

definition on_key :: "int \<Rightarrow> int \<Rightarrow> int \<Rightarrow> game_state \<Rightarrow> game_state \<times> bool" where
  "on_key key dealer_value player_value st =
     (let st1 = (if key = py_ord CHR ''S''
                 then st\<lparr>game_over := True,
                         winner_message := decide_winner dealer_value player_value\<rparr>
                 else st);
          st2 = (if key = py_ord CHR ''D''
                 then st1\<lparr>game_over := False, winner_message := ''''\<rparr>
                 else st1)
      in (st2, key = py_ord CHR ''q''))"

definition loop_body :: "game_state \<Rightarrow> frame \<Rightarrow> py_error + game_state \<times> bool" where
  "loop_body st f =
     bind_err (frame_values st f) (\<lambda>(dealer_value, player_value).
       Inr (on_key (waitKey f AND 255) dealer_value player_value st))"

section \<open>The specification's reading of the rules\<close>

text \<open>
  The points of a card as the specification gives them: the face value for the numeric
  ranks 2 to 10, 10 for Jack, Queen and King, and 11 for an Ace before any adjustment.
\<close>

definition spec_rank_points :: "(string \<times> int) list" where
  "spec_rank_points =
     [(''2'', 2), (''3'', 3), (''4'', 4), (''5'', 5), (''6'', 6), (''7'', 7), (''8'', 8),
      (''9'', 9), (''10'', 10), (''J'', 10), (''Q'', 10), (''K'', 10), (''A'', 11)]"

definition spec_points :: "string \<Rightarrow> int" where
  "spec_points c = (case map_of spec_rank_points (butlast c) of Some n \<Rightarrow> n | None \<Rightarrow> 0)"

definition is_ace :: "string \<Rightarrow> bool" where
  "is_ace c = (butlast c = ''A'')"

definition ace11_total :: "string list \<Rightarrow> int" where
  "ace11_total hand = sum_list (map spec_points hand)"

definition count_aces :: "string list \<Rightarrow> nat" where
  "count_aces hand = length (filter is_ace hand)"

text \<open>
  The adjustment in the specification's words: with \<open>k\<close> Aces still counted as 11, while
  the total \<open>t\<close> exceeds 21 one more Ace is counted as 1.
\<close>

fun spec_downgrade :: "int \<Rightarrow> nat \<Rightarrow> int" where
  "spec_downgrade t 0 = t"
| "spec_downgrade t (Suc k) = (if t > 21 then spec_downgrade (t - 10) k else t)"

text \<open>
  The precedence of the specification: the rules in their order, each a condition on
  (dealerValue, playerValue) with its message; the first rule whose condition holds gives
  the message, and when none holds the game is a draw.
\<close>

definition spec_precedence :: "((int \<Rightarrow> int \<Rightarrow> bool) \<times> string) list" where
  "spec_precedence =
     [(\<lambda>d p. d > 21 \<and> p > 21, ''Both players busted! No winner.''),
      (\<lambda>d p. d > 21, ''Dealer busted! Player wins!''),
      (\<lambda>d p. p > 21, ''Player busted! Dealer wins!''),
      (\<lambda>d p. d > p, ''Dealer wins!''),
      (\<lambda>d p. p > d, ''Player wins!'')]"

definition spec_verdict :: "int \<Rightarrow> int \<Rightarrow> string" where
  "spec_verdict d p =
     (case find (\<lambda>(cond, msg). cond d p) spec_precedence of
        Some (cond, msg) \<Rightarrow> msg
      | None \<Rightarrow> ''It's a draw!'')"

text \<open>
  The zone of the specification: the frame height is divided by two exactly, over the
  reals.
\<close>

definition spec_classify :: "real \<Rightarrow> real \<Rightarrow> zone" where
  "spec_classify topEdgeY frameHeight = (if topEdgeY < frameHeight / 2 then Dealer else Player)"

section \<open>Properties of the hand evaluation\<close>

lemma bind_err_simps [simp]:
  "bind_err (Inl e) f = Inl e" "bind_err (Inr x) f = f x"
  by (simp_all add: bind_err_def)

lemmas py_int_defs = py_int_def split_sign_def is_space_def is_digit_def digit_value_def
  int_max_str_digits_def

text \<open>
  On each of the 52 names of \<open>classNames\<close> the loop body adds the points that the
  specification gives the card, and counts it when it is an Ace.
\<close>

lemma card_step_valid:
  assumes "c \<in> set classNames"
  shows "card_step (v, a) c = Inr (v + spec_points c, a + (if is_ace c then 1 else 0))"
  using assms
  by (auto simp: classNames_def card_step_def spec_points_def spec_rank_points_def is_ace_def
      py_int_defs)

lemma for_each_card_step_valid:
  "set hand \<subseteq> set classNames \<Longrightarrow>
   for_each card_step hand (v, a) = Inr (v + ace11_total hand, a + int (count_aces hand))"
proof (induction hand arbitrary: v a)
  case Nil
  show ?case by (simp add: ace11_total_def count_aces_def)
next
  case (Cons c hand)
  then have c: "c \<in> set classNames" and rest: "set hand \<subseteq> set classNames" by auto
  show ?case
    using Cons.IH [OF rest] by (simp add: card_step_valid [OF c] ace11_total_def count_aces_def)
qed

lemma calculate_valid:
  "set hand \<subseteq> set classNames \<Longrightarrow>
   calculate_blackjack_value hand = Inr (ace_adjust (ace11_total hand) (int (count_aces hand)))"
  by (simp add: calculate_blackjack_value_def for_each_card_step_valid)

text \<open>The loop of the program and the adjustment of the specification agree.\<close>

lemma ace_adjust_spec: "ace_adjust v (int k) = spec_downgrade v k"
proof (induction k arbitrary: v)
  case 0
  show ?case by (simp add: ace_adjust.simps)
next
  case (Suc k)
  have "ace_adjust v (int (Suc k)) = (if v > 21 then ace_adjust (v - 10) (int k) else v)"
    by (subst ace_adjust.simps) simp
  then show ?case using Suc.IH [of "v - 10"] by simp
qed

text \<open>
  What the adjustment computes: \<open>d\<close> Aces are counted as 1, no more than there are; it
  stops at a total of at most 21 or when every Ace is counted as 1; and the last Ace was
  downgraded only because the total before it exceeded 21.
\<close>

lemma spec_downgrade_char:
  "\<exists>d\<le>k. spec_downgrade v k = v - 10 * int d
      \<and> (spec_downgrade v k \<le> 21 \<or> d = k)
      \<and> (d = 0 \<or> 21 < spec_downgrade v k + 10)"
proof (induction k arbitrary: v)
  case 0
  show ?case by simp
next
  case (Suc k)
  show ?case
  proof (cases "v > 21")
    case False
    then show ?thesis by (intro exI [of _ 0]) simp
  next
    case True
    from Suc.IH [of "v - 10"] obtain d where d: "d \<le> k"
      "spec_downgrade (v - 10) k = v - 10 - 10 * int d"
      "spec_downgrade (v - 10) k \<le> 21 \<or> d = k"
      "d = 0 \<or> 21 < spec_downgrade (v - 10) k + 10" by blast
    show ?thesis
      using True d by (intro exI [of _ "Suc d"]) auto
  qed
qed

text \<open>
  The loop with its iteration counter returns from every start, with the result of
  \<open>ace_adjust\<close>; it runs at most \<open>aces\<close> times, takes 10 off the value each time, and does
  not run at all from a value of at most 21.
\<close>

lemma ace_loop_returns:
  "\<exists>n. ace_loop v a i = Some (ace_adjust v a, a - int n, i + n)
       \<and> int n \<le> max 0 a \<and> ace_adjust v a = v - 10 * int n \<and> (v \<le> 21 \<longrightarrow> n = 0)"
proof (induction v a arbitrary: i rule: ace_adjust.induct)
  case (1 v a)
  show ?case
  proof (cases "v > 21 \<and> a > 0")
    case False
    then have "ace_loop v a i = Some (v, a, i)" "ace_adjust v a = v"
      by (auto simp: ace_loop.simps [of v a i] ace_adjust.simps [of v a])
    then show ?thesis by (intro exI [of _ 0]) simp
  next
    case True
    from "1.IH" [OF True, of "Suc i"] obtain n where n:
      "ace_loop (v - 10) (a - 1) (Suc i) = Some (ace_adjust (v - 10) (a - 1), a - 1 - int n, Suc i + n)"
      "int n \<le> max 0 (a - 1)" "ace_adjust (v - 10) (a - 1) = v - 10 - 10 * int n"
      by blast
    have "ace_loop v a i = ace_loop (v - 10) (a - 1) (Suc i)"
      using True by (simp add: ace_loop.simps [of v a i])
    moreover have "ace_adjust v a = ace_adjust (v - 10) (a - 1)"
      using True by (simp add: ace_adjust.simps [of v a])
    ultimately show ?thesis
      using True n by (intro exI [of _ "Suc n"]) auto
  qed
qed

text \<open>
  The only exception of the hand evaluation is the \<^verbatim>\<open>ValueError\<close> of \<^verbatim>\<open>int(rank)\<close>, and
  it is raised exactly when some card of the hand has a rejected rank.
\<close>

lemma py_int_error: "py_int s = Inl e \<Longrightarrow> e = ValueError"
  by (simp add: py_int_def Let_def split: prod.splits if_splits)

lemma card_step_error:
  "card_step (v, a) c = Inl e \<longleftrightarrow> e = ValueError \<and> rank_rejected c"
  by (cases "py_int (butlast c)")
    (auto simp: card_step_def rank_rejected_def Let_def dest: py_int_error)

lemma for_each_card_step_error:
  "for_each card_step hand s = Inl e \<longleftrightarrow> e = ValueError \<and> (\<exists>c\<in>set hand. rank_rejected c)"
proof (induction hand arbitrary: s)
  case Nil
  show ?case by simp
next
  case (Cons c hand)
  obtain v a where s: "s = (v, a)" by (cases s)
  show ?case
  proof (cases "card_step s c")
    case (Inl e')
    then show ?thesis using card_step_error [of v a c e'] by (auto simp: s)
  next
    case (Inr s')
    then have "\<not> rank_rejected c" using card_step_error [of v a c ValueError] by (simp add: s)
    then show ?thesis using Inr Cons.IH [of s'] by simp
  qed
qed

section \<open>Properties of the hands of a frame\<close>


lemma py_index_in_set: "py_index xs i = Inr c \<Longrightarrow> c \<in> set xs"
  by (auto simp: py_index_def Let_def split: if_splits)

lemma box_card_valid: "box_card b = Inr c \<Longrightarrow> c \<in> set classNames"
  unfolding box_card_def by (rule py_index_in_set)

lemma classify_eq: "classify y w h = (if y < h div 2 then Some Dealer else Some Player)"
  by (simp add: classify_def dealer_zone_def player_zone_def)

lemma assign_box_set:
  assumes "assign_box w h hands b = Inr hands'"
  shows "set (hand_of z hands') =
         set (hand_of z hands) \<union> {c. box_card b = Inr c \<and> classify (y1 b) w h = Some z}"
proof -
  obtain d p where hands: "hands = (d, p)" by (cases hands)
  from assms obtain c where c: "box_card b = Inr c"
    by (cases "box_card b") (auto simp: assign_box_def hands)
  show ?thesis
    using assms c by (cases z) (auto simp: assign_box_def hands classify_eq split: if_splits)
qed

lemma for_each_assign_box_set:
  "for_each (assign_box w h) bs hands = Inr hands' \<Longrightarrow>
   set (hand_of z hands') =
     set (hand_of z hands) \<union> {c. \<exists>b\<in>set bs. box_card b = Inr c \<and> classify (y1 b) w h = Some z}"
proof (induction bs arbitrary: hands)
  case Nil
  then show ?case by simp
next
  case (Cons b bs)
  from Cons.prems obtain mid where mid: "assign_box w h hands b = Inr mid"
    and rest: "for_each (assign_box w h) bs mid = Inr hands'"
    by (cases "assign_box w h hands b") auto
  show ?case
    using Cons.IH [OF rest] assign_box_set [OF mid, of z] by auto
qed

lemma aggregate_set:
  assumes "aggregate w h rs = Inr hands"
  shows "set (hand_of z hands) = {c. detected_in z c w h rs \<noteq> []}"
    and "distinct (hand_of z hands)"
proof -
  from assms obtain d p where raw: "collect_hands w h rs = Inr (d, p)"
    and hands: "hands = (py_list_set d, py_list_set p)"
    by (cases "collect_hands w h rs") (auto simp: aggregate_def)
  have "set (hand_of z (d, p)) =
      {c. \<exists>b\<in>set (concat rs). box_card b = Inr c \<and> classify (y1 b) w h = Some z}"
    using for_each_assign_box_set [OF raw [unfolded collect_hands_def], of z]
    by (cases z) auto
  moreover have "set (hand_of z hands) = set (hand_of z (d, p))"
    by (cases z) (simp_all add: hands py_list_set_def)
  ultimately show "set (hand_of z hands) = {c. detected_in z c w h rs \<noteq> []}"
    by (auto simp: detected_in_def filter_empty_conv)
  show "distinct (hand_of z hands)"
    by (cases z) (simp_all add: hands py_list_set_def)
qed

lemma aggregate_valid:
  assumes "aggregate w h rs = Inr hands"
  shows "set (hand_of z hands) \<subseteq> set classNames"
  using aggregate_set(1) [OF assms, of z]
  by (auto simp: detected_in_def filter_empty_conv dest: box_card_valid)

lemma distinct_count_list: "distinct ys \<Longrightarrow> c \<in> set ys \<Longrightarrow> count_list ys c = 1"
  by (induction ys) auto

text \<open>
  The order in which \<^verbatim>\<open>list(set(xs))\<close> lists the cards does not matter: every list that
  it may return holds each card once and evaluates to the same hand value.
\<close>

lemma list_of_set_count:
  "is_list_of_set xs ys \<Longrightarrow> c \<in> set xs \<Longrightarrow> count_list ys c = 1"
  by (simp add: is_list_of_set_def distinct_count_list)

lemma py_list_set_is_list_of_set: "is_list_of_set xs (py_list_set xs)"
  by (simp add: is_list_of_set_def py_list_set_def)

lemma list_of_set_value:
  assumes "set xs \<subseteq> set classNames" and "is_list_of_set xs ys"
  shows "calculate_blackjack_value ys = calculate_blackjack_value (py_list_set xs)"
proof -
  from assms(2) have "mset ys = mset (py_list_set xs)"
    by (simp add: is_list_of_set_def py_list_set_def set_eq_iff_mset_eq_distinct [symmetric])
  then have t: "ace11_total ys = ace11_total (py_list_set xs)"
    and k: "count_aces ys = count_aces (py_list_set xs)"
    unfolding ace11_total_def count_aces_def
    by (metis mset_map sum_mset_sum_list, metis mset_filter size_mset)
  from assms have "set ys \<subseteq> set classNames" "set (py_list_set xs) \<subseteq> set classNames"
    by (simp_all add: is_list_of_set_def py_list_set_def)
  then show ?thesis by (simp add: calculate_valid t k)
qed

text \<open>
  When the hands of a frame were built without an exception, the values of the frame
  exist: 0 for an empty hand and after the game has ended, the value of the hand otherwise.
\<close>

lemma live_values_valid:
  assumes "set dh \<subseteq> set classNames" and "set ph \<subseteq> set classNames"
  shows "\<exists>dv pv. live_values over dh ph = Inr (dv, pv)
           \<and> (over \<or> dh = [] \<longrightarrow> dv = 0) \<and> (over \<or> ph = [] \<longrightarrow> pv = 0)
           \<and> (\<not> over \<and> dh \<noteq> [] \<longrightarrow> calculate_blackjack_value dh = Inr dv)
           \<and> (\<not> over \<and> ph \<noteq> [] \<longrightarrow> calculate_blackjack_value ph = Inr pv)"
  by (simp add: live_values_def calculate_valid [OF assms(1)] calculate_valid [OF assms(2)])

lemma frame_values_valid:
  assumes "aggregate (shape_width f) (shape_height f) (detections f) = Inr hands"
  shows "\<exists>dv pv. frame_values st f = Inr (dv, pv)
           \<and> (game_over st \<or> hand_of Dealer hands = [] \<longrightarrow> dv = 0)
           \<and> (game_over st \<or> hand_of Player hands = [] \<longrightarrow> pv = 0)
           \<and> (\<not> game_over st \<and> hand_of Dealer hands \<noteq> [] \<longrightarrow>
                calculate_blackjack_value (hand_of Dealer hands) = Inr dv)
           \<and> (\<not> game_over st \<and> hand_of Player hands \<noteq> [] \<longrightarrow>
                calculate_blackjack_value (hand_of Player hands) = Inr pv)"
proof -
  obtain dh ph where hands: "hands = (dh, ph)" by (cases hands)
  have "set dh \<subseteq> set classNames" "set ph \<subseteq> set classNames"
    using aggregate_valid [OF assms, of Dealer] aggregate_valid [OF assms, of Player]
    by (simp_all add: hands)
  from live_values_valid [OF this, of "game_over st"] show ?thesis
    by (simp add: frame_values_def assms hands)
qed

section \<open>Properties of the key handling\<close>

lemma py_ord_keys [simp]:
  "py_ord CHR ''S'' = 83" "py_ord CHR ''D'' = 68" "py_ord CHR ''q'' = 113"
  by (simp_all add: py_ord_def)

lemma on_key_S:
  "on_key 83 dv pv st = (\<lparr>game_over = True, winner_message = decide_winner dv pv\<rparr>, False)"
  by (simp add: on_key_def)

lemma on_key_D:
  "on_key 68 dv pv st = (\<lparr>game_over = False, winner_message = ''''\<rparr>, False)"
  by (simp add: on_key_def)

lemma decide_winner_not_bust:
  "\<not> is_bust dv \<Longrightarrow> decide_winner dv pv \<noteq> ''Both players busted! No winner.''
     \<and> decide_winner dv pv \<noteq> ''Dealer busted! Player wins!''"
  "\<not> is_bust pv \<Longrightarrow> decide_winner dv pv \<noteq> ''Both players busted! No winner.''
     \<and> decide_winner dv pv \<noteq> ''Player busted! Dealer wins!''"
  by (simp_all add: is_bust_def decide_winner_def)

lemma decide_winner_spec: "decide_winner dv pv = spec_verdict dv pv"
  by (simp add: decide_winner_def spec_verdict_def spec_precedence_def)

section \<open>Claims about the hand evaluation\<close>

text \<open>
  Claim C1. For every hand of valid cards with \<open>k\<close> Aces, \<open>calculate_blackjack_value\<close>
  returns the total with every Ace counted as 11, adjusted as the specification says: while
  the total exceeds 21 and an Ace is still counted as 11, one Ace is counted as 1 instead
  (10 less). So the result is that total less 10 for each of \<open>d\<close> downgraded Aces, where
  \<open>d\<close> is at most \<open>k\<close>, the result is at most 21 unless all \<open>k\<close> Aces are downgraded, and
  the last downgrade happened at a total above 21. The three examples of the specification
  evaluate to 11, 12 and 21.
\<close>

theorem evaluate_ace_adjustment:
  "(set hand \<subseteq> set classNames \<longrightarrow>
      calculate_blackjack_value hand = Inr (spec_downgrade (ace11_total hand) (count_aces hand))
      \<and> (\<exists>d\<le>count_aces hand.
            calculate_blackjack_value hand = Inr (ace11_total hand - 10 * int d)
            \<and> (ace11_total hand - 10 * int d \<le> 21 \<or> d = count_aces hand)
            \<and> (d = 0 \<or> 21 < ace11_total hand - 10 * int d + 10)))
   \<and> calculate_blackjack_value [''AH''] = Inr 11
   \<and> calculate_blackjack_value [''AH'', ''AD''] = Inr 12
   \<and> calculate_blackjack_value [''AH'', ''AD'', ''9C''] = Inr 21"
proof -
  have general: "calculate_blackjack_value hand = Inr (spec_downgrade (ace11_total hand) (count_aces hand))
      \<and> (\<exists>d\<le>count_aces hand.
            calculate_blackjack_value hand = Inr (ace11_total hand - 10 * int d)
            \<and> (ace11_total hand - 10 * int d \<le> 21 \<or> d = count_aces hand)
            \<and> (d = 0 \<or> 21 < ace11_total hand - 10 * int d + 10))"
    if valid: "set hand \<subseteq> set classNames"
  proof -
    have eq: "calculate_blackjack_value hand
        = Inr (spec_downgrade (ace11_total hand) (count_aces hand))"
      by (simp add: calculate_valid [OF valid] ace_adjust_spec)
    from spec_downgrade_char [of "count_aces hand" "ace11_total hand"]
    obtain d where "d \<le> count_aces hand"
      "spec_downgrade (ace11_total hand) (count_aces hand) = ace11_total hand - 10 * int d"
      "spec_downgrade (ace11_total hand) (count_aces hand) \<le> 21 \<or> d = count_aces hand"
      "d = 0 \<or> 21 < spec_downgrade (ace11_total hand) (count_aces hand) + 10"
      by blast
    then show ?thesis using eq by auto
  qed
  have e1: "calculate_blackjack_value [''AH''] = Inr 11" by code_simp
  have e2: "calculate_blackjack_value [''AH'', ''AD''] = Inr 12" by code_simp
  have e3: "calculate_blackjack_value [''AH'', ''AD'', ''9C''] = Inr 21" by code_simp
  from general e1 e2 e3 show ?thesis by blast
qed

text \<open>A hand with two Aces, a King and a five: 37 with both Aces at 11, 17 after two downgrades.\<close>

theorem evaluate_ace_adjustment_witness:
  "set [''AS'', ''AC'', ''KD'', ''5H''] \<subseteq> set classNames
   \<and> count_aces [''AS'', ''AC'', ''KD'', ''5H''] = 2
   \<and> ace11_total [''AS'', ''AC'', ''KD'', ''5H''] = 37
   \<and> calculate_blackjack_value [''AS'', ''AC'', ''KD'', ''5H''] = Inr 17"
proof -
  have v: "set [''AS'', ''AC'', ''KD'', ''5H''] \<subseteq> set classNames"
    by (simp add: classNames_def)
  have k: "count_aces [''AS'', ''AC'', ''KD'', ''5H''] = 2"
    by (simp add: count_aces_def is_ace_def)
  have t: "ace11_total [''AS'', ''AC'', ''KD'', ''5H''] = 37"
    by (simp add: ace11_total_def spec_points_def spec_rank_points_def)
  have "spec_downgrade 37 2 = 17" by (simp add: numeral_2_eq_2)
  with evaluate_ace_adjustment [of "[''AS'', ''AC'', ''KD'', ''5H'']"] v k t
  show ?thesis by simp
qed

text \<open>
  Claim C6. The Ace-adjustment loop returns from every start: run as a function in which a
  loop that never ends would give \<open>None\<close>, it gives \<open>Some\<close> result, the one of
  \<open>ace_adjust\<close>. The number \<open>n\<close> of its iterations is at most the number of Aces, each
  iteration takes 10 off the value, and from a value of at most 21 the body is not run at
  all, whatever the number of Aces.
\<close>

theorem ace_loop_terminates:
  "\<exists>n. ace_loop value aces 0 = Some (ace_adjust value aces, aces - int n, n)
       \<and> int n \<le> max 0 aces
       \<and> ace_adjust value aces = value - 10 * int n
       \<and> (value \<le> 21 \<longrightarrow> n = 0)"
  using ace_loop_returns [of "value" aces 0] by simp

text \<open>From 18 with three Aces the loop does nothing; from 43 with two Aces it runs twice.\<close>

theorem ace_loop_terminates_witness:
  "(18::int) \<le> 21 \<and> ace_loop 18 3 0 = Some (18, 3, 0) \<and> ace_adjust 18 3 = 18
   \<and> ace_loop 43 2 0 = Some (23, 0, 2)"
proof -
  from ace_loop_terminates [of 18 3] obtain n where
    "ace_loop 18 3 0 = Some (ace_adjust 18 3, 3 - int n, n)" "ace_adjust 18 3 = 18 - 10 * int n"
    "n = 0" by auto
  moreover have "ace_loop 43 2 0 = Some (23, 0, 2)" by (simp add: ace_loop.simps)
  ultimately show ?thesis by simp
qed

text \<open>
  Claim C9. For every hand of valid cards without an Ace, \<open>calculate_blackjack_value\<close>
  returns the sum of the points of the cards (the face value of a numeric rank, 10 for
  Jack, Queen and King). The empty hand evaluates to 0, which is not a bust.
\<close>

theorem evaluate_non_ace_sum:
  "(set hand \<subseteq> set classNames \<and> (\<forall>c\<in>set hand. \<not> is_ace c) \<longrightarrow>
      calculate_blackjack_value hand = Inr (sum_list (map spec_points hand)))
   \<and> calculate_blackjack_value [] = Inr 0 \<and> \<not> is_bust 0"
proof -
  have "calculate_blackjack_value hand = Inr (sum_list (map spec_points hand))"
    if valid: "set hand \<subseteq> set classNames" and noace: "\<forall>c\<in>set hand. \<not> is_ace c"
  proof -
    from noace have "filter is_ace hand = []" by (simp add: filter_empty_conv)
    then have "count_aces hand = 0" by (simp add: count_aces_def)
    then show ?thesis
      by (simp add: calculate_valid [OF valid] ace_adjust.simps ace11_total_def)
  qed
  moreover have "calculate_blackjack_value [] = Inr 0"
    by (simp add: calculate_blackjack_value_def ace_adjust.simps)
  ultimately show ?thesis by (simp add: is_bust_def)
qed

text \<open>King, seven and ten make 27.\<close>

theorem evaluate_non_ace_sum_witness:
  "set [''KH'', ''7C'', ''10D''] \<subseteq> set classNames
   \<and> \<not> is_ace ''KH'' \<and> \<not> is_ace ''7C'' \<and> \<not> is_ace ''10D''
   \<and> calculate_blackjack_value [''KH'', ''7C'', ''10D''] = Inr 27"
proof -
  have v: "set [''KH'', ''7C'', ''10D''] \<subseteq> set classNames" by (simp add: classNames_def)
  have n: "\<forall>c\<in>set [''KH'', ''7C'', ''10D'']. \<not> is_ace c" by (simp add: is_ace_def)
  have "sum_list (map spec_points [''KH'', ''7C'', ''10D'']) = 27"
    by (simp add: spec_points_def spec_rank_points_def)
  with evaluate_non_ace_sum [of "[''KH'', ''7C'', ''10D'']"] v n show ?thesis by simp
qed

text \<open>
  Claim C3, as amended. Evaluating a hand raises exactly when the hand holds a card whose
  rank, the name without its last character, is none of K, Q, J and A and is not accepted
  by \<^verbatim>\<open>int\<close>; the exception is then \<^verbatim>\<open>ValueError\<close>, the program having no error of
  its own for an invalid card, and never another one. A hand of names of \<open>classNames\<close>
  only is evaluated without an exception.
\<close>

theorem evaluate_errors:
  "(calculate_blackjack_value hand = Inl ValueError \<longleftrightarrow> (\<exists>c\<in>set hand. rank_rejected c))
   \<and> calculate_blackjack_value hand \<noteq> Inl IndexError
   \<and> (set hand \<subseteq> set classNames \<longrightarrow> (\<exists>v. calculate_blackjack_value hand = Inr v))"
proof -
  have "calculate_blackjack_value hand = Inl e \<longleftrightarrow> e = ValueError \<and> (\<exists>c\<in>set hand. rank_rejected c)"
    for e
    using for_each_card_step_error [of hand "(0, 0)" e]
    by (cases "for_each card_step hand (0, 0)") (auto simp: calculate_blackjack_value_def)
  then show ?thesis by (auto simp: calculate_valid)
qed

text \<open>
  Claim C3 as stated fails: \<^verbatim>\<open>11H\<close> and \<^verbatim>\<open>5X\<close> are not among the 52 names, and hands
  that hold them are evaluated, to 11 and to 15, without an exception.
\<close>

theorem evaluate_errors_counterexample:
  "''11H'' \<notin> set classNames \<and> calculate_blackjack_value [''11H''] = Inr 11
   \<and> ''5X'' \<notin> set classNames \<and> calculate_blackjack_value [''KH'', ''5X''] = Inr 15"
proof -
  have "''11H'' \<notin> set classNames" "''5X'' \<notin> set classNames"
    by (simp_all add: classNames_def)
  moreover have "calculate_blackjack_value [''11H''] = Inr 11" by code_simp
  moreover have "calculate_blackjack_value [''KH'', ''5X''] = Inr 15" by code_simp
  ultimately show ?thesis by simp
qed

text \<open>
  An Ace with a five is evaluated to 16; \<^verbatim>\<open>XH\<close> has a rejected rank, and a hand that
  holds it raises \<^verbatim>\<open>ValueError\<close>.
\<close>

theorem evaluate_errors_witness:
  "set [''AH'', ''5C''] \<subseteq> set classNames
   \<and> calculate_blackjack_value [''AH'', ''5C''] = Inr 16
   \<and> rank_rejected ''XH''
   \<and> calculate_blackjack_value [''AH'', ''XH''] = Inl ValueError"
proof -
  have v: "set [''AH'', ''5C''] \<subseteq> set classNames" by (simp add: classNames_def)
  have r: "rank_rejected ''XH''" by code_simp
  from evaluate_errors [of "[''AH'', ''5C'']"] v
  obtain n where n: "calculate_blackjack_value [''AH'', ''5C''] = Inr n" by blast
  have "calculate_blackjack_value [''AH'', ''5C''] = Inr 16" by code_simp
  with n have "n = 16" by simp
  moreover have "calculate_blackjack_value [''AH'', ''XH''] = Inl ValueError"
    using evaluate_errors [of "[''AH'', ''XH'']"] r by simp
  ultimately show ?thesis using v r n by simp
qed

section \<open>Claims about the hands of a frame\<close>

text \<open>
  Claim C7. When the hands of a frame are built without an exception and the card \<open>c\<close> is
  detected \<open>N\<close> times, \<open>N\<close> at least 1, with the top edge in the zone \<open>z\<close>, the hand of
  that zone after \<^verbatim>\<open>list(set(...))\<close> holds \<open>c\<close> exactly once.
\<close>

theorem aggregate_dedup:
  assumes "aggregate width height results = Inr hands"
    and "length (detected_in z c width height results) = N"
    and "1 \<le> N"
  shows "count_list (hand_of z hands) c = 1"
proof -
  from assms(2,3) have "detected_in z c width height results \<noteq> []" by auto
  then have "c \<in> set (hand_of z hands)"
    using aggregate_set(1) [OF assms(1), of z] by simp
  with aggregate_set(2) [OF assms(1), of z] show ?thesis
    by (rule distinct_count_list)
qed

text \<open>
  The Ace of hearts detected three times in the upper half and once in the lower half of a
  frame of height 720, and the King of clubs once in the lower half.
\<close>

theorem aggregate_dedup_witness:
  "aggregate 1280 720
     [[\<lparr>cls = 38, x1 = 10, y1 = 100, x2 = 60, y2 = 180\<rparr>,
       \<lparr>cls = 38, x1 = 12, y1 = 105, x2 = 62, y2 = 185\<rparr>,
       \<lparr>cls = 44, x1 = 10, y1 = 400, x2 = 60, y2 = 480\<rparr>],
      [\<lparr>cls = 38, x1 = 11, y1 = 110, x2 = 61, y2 = 190\<rparr>,
       \<lparr>cls = 38, x1 = 300, y1 = 500, x2 = 350, y2 = 580\<rparr>]]
     = Inr ([''AH''], [''KC'', ''AH''])
   \<and> length (detected_in Dealer ''AH'' 1280 720
     [[\<lparr>cls = 38, x1 = 10, y1 = 100, x2 = 60, y2 = 180\<rparr>,
       \<lparr>cls = 38, x1 = 12, y1 = 105, x2 = 62, y2 = 185\<rparr>,
       \<lparr>cls = 44, x1 = 10, y1 = 400, x2 = 60, y2 = 480\<rparr>],
      [\<lparr>cls = 38, x1 = 11, y1 = 110, x2 = 61, y2 = 190\<rparr>,
       \<lparr>cls = 38, x1 = 300, y1 = 500, x2 = 350, y2 = 580\<rparr>]]) = 3
   \<and> count_list (hand_of Dealer ([''AH''], [''KC'', ''AH''])) ''AH'' = 1"
proof -
  let ?rs = "[[\<lparr>cls = 38, x1 = 10, y1 = 100, x2 = 60, y2 = 180\<rparr>,
       \<lparr>cls = 38, x1 = 12, y1 = 105, x2 = 62, y2 = 185\<rparr>,
       \<lparr>cls = 44, x1 = 10, y1 = 400, x2 = 60, y2 = 480\<rparr>],
      [\<lparr>cls = 38, x1 = 11, y1 = 110, x2 = 61, y2 = 190\<rparr>,
       \<lparr>cls = 38, x1 = 300, y1 = 500, x2 = 350, y2 = 580\<rparr>]]"
  have a: "aggregate 1280 720 ?rs = Inr ([''AH''], [''KC'', ''AH''])" by code_simp
  have n: "length (detected_in Dealer ''AH'' 1280 720 ?rs) = 3" by code_simp
  from aggregate_dedup [OF a n] a n show ?thesis by simp
qed

section \<open>Claims about the game state\<close>

text \<open>
  Claim C2. When the key \<^verbatim>\<open>S\<close> (End) is handled with the hand values
  (dealerValue, playerValue), in the state InProgress as in any other, the game is over and
  the winner message is the one of the first rule of the specification's list whose
  condition holds: both above 21; dealer above 21; player above 21; dealer above player;
  player above dealer; and a draw when no rule applies. End(22, 18) gives the message of
  the busted dealer, End(20, 20) the draw and End(17, 19) the player's win.
\<close>

theorem end_precedence:
  "on_key (py_ord CHR ''S'') dealerValue playerValue st =
     (\<lparr>game_over = True, winner_message = spec_verdict dealerValue playerValue\<rparr>, False)
   \<and> spec_verdict dealerValue playerValue =
       (if dealerValue > 21 \<and> playerValue > 21 then ''Both players busted! No winner.''
        else if dealerValue > 21 then ''Dealer busted! Player wins!''
        else if playerValue > 21 then ''Player busted! Dealer wins!''
        else if dealerValue > playerValue then ''Dealer wins!''
        else if playerValue > dealerValue then ''Player wins!''
        else ''It's a draw!'')
   \<and> on_key (py_ord CHR ''S'') 22 18 initial_state =
       (\<lparr>game_over = True, winner_message = ''Dealer busted! Player wins!''\<rparr>, False)
   \<and> on_key (py_ord CHR ''S'') 20 20 initial_state =
       (\<lparr>game_over = True, winner_message = ''It's a draw!''\<rparr>, False)
   \<and> on_key (py_ord CHR ''S'') 17 19 initial_state =
       (\<lparr>game_over = True, winner_message = ''Player wins!''\<rparr>, False)"
  by (simp add: on_key_S decide_winner_spec [symmetric] decide_winner_def)

text \<open>
  Claim C8. From every ended state, whatever message \<open>m\<close> it stores and whatever the hand
  values of the frame, the key \<^verbatim>\<open>D\<close> (Reset) gives the state that is not over and has
  the empty message, which is the initial state: the state has no other field, and the
  loop goes on.
\<close>

theorem reset_from_ended:
  "on_key (py_ord CHR ''D'') dealer_value player_value \<lparr>game_over = True, winner_message = m\<rparr>
     = (\<lparr>game_over = False, winner_message = ''''\<rparr>, False)
   \<and> \<lparr>game_over = False, winner_message = ''''\<rparr> = initial_state"
  by (simp add: on_key_D initial_state_def)

text \<open>
  Claim C5. When the hands of a frame are built without an exception and the key of the
  frame is \<^verbatim>\<open>S\<close> (End), the winner is decided from the values \<open>dv\<close> and \<open>pv\<close> of
  that same frame. A zone with an empty hand has the value 0, which is not a bust, so that
  the message never says that this zone busted. While the game is not over, a zone with
  cards has the value of its hand.
\<close>

theorem end_consumes_frame_values:
  assumes "aggregate (shape_width f) (shape_height f) (detections f) = Inr hands"
    and "waitKey f AND 255 = py_ord CHR ''S''"
  shows "\<exists>dv pv. frame_values st f = Inr (dv, pv)
           \<and> loop_body st f =
               Inr (\<lparr>game_over = True, winner_message = decide_winner dv pv\<rparr>, False)
           \<and> (hand_of Dealer hands = [] \<longrightarrow>
                dv = 0 \<and> \<not> is_bust dv
                \<and> decide_winner dv pv \<noteq> ''Both players busted! No winner.''
                \<and> decide_winner dv pv \<noteq> ''Dealer busted! Player wins!'')
           \<and> (hand_of Player hands = [] \<longrightarrow>
                pv = 0 \<and> \<not> is_bust pv
                \<and> decide_winner dv pv \<noteq> ''Both players busted! No winner.''
                \<and> decide_winner dv pv \<noteq> ''Player busted! Dealer wins!'')
           \<and> (\<not> game_over st \<and> hand_of Dealer hands \<noteq> [] \<longrightarrow>
                calculate_blackjack_value (hand_of Dealer hands) = Inr dv)
           \<and> (\<not> game_over st \<and> hand_of Player hands \<noteq> [] \<longrightarrow>
                calculate_blackjack_value (hand_of Player hands) = Inr pv)"
proof -
  from frame_values_valid [OF assms(1), of st] obtain dv pv where
    fv: "frame_values st f = Inr (dv, pv)"
    and d0: "game_over st \<or> hand_of Dealer hands = [] \<longrightarrow> dv = 0"
    and p0: "game_over st \<or> hand_of Player hands = [] \<longrightarrow> pv = 0"
    and dl: "\<not> game_over st \<and> hand_of Dealer hands \<noteq> [] \<longrightarrow>
                calculate_blackjack_value (hand_of Dealer hands) = Inr dv"
    and pl: "\<not> game_over st \<and> hand_of Player hands \<noteq> [] \<longrightarrow>
                calculate_blackjack_value (hand_of Player hands) = Inr pv"
    by blast
  have lb: "loop_body st f =
      Inr (\<lparr>game_over = True, winner_message = decide_winner dv pv\<rparr>, False)"
    using assms(2) by (simp add: loop_body_def fv on_key_S)
  have db: "hand_of Dealer hands = [] \<longrightarrow> dv = 0 \<and> \<not> is_bust dv
                \<and> decide_winner dv pv \<noteq> ''Both players busted! No winner.''
                \<and> decide_winner dv pv \<noteq> ''Dealer busted! Player wins!''"
    using d0 decide_winner_not_bust(1) [of dv pv] by (auto simp: is_bust_def)
  have pb: "hand_of Player hands = [] \<longrightarrow> pv = 0 \<and> \<not> is_bust pv
                \<and> decide_winner dv pv \<noteq> ''Both players busted! No winner.''
                \<and> decide_winner dv pv \<noteq> ''Player busted! Dealer wins!''"
    using p0 decide_winner_not_bust(2) [of pv dv] by (auto simp: is_bust_def)
  from fv lb db pb dl pl show ?thesis by blast
qed

text \<open>
  A frame with no card in the upper half and a King and an Ace in the lower half, in a game
  that is not over: the values are 0 and 21, and the player wins.
\<close>

theorem end_consumes_frame_values_witness:
  "aggregate 1280 720
     [[\<lparr>cls = 44, x1 = 10, y1 = 400, x2 = 60, y2 = 480\<rparr>,
       \<lparr>cls = 38, x1 = 300, y1 = 500, x2 = 350, y2 = 580\<rparr>]]
     = Inr ([], [''KC'', ''AH''])
   \<and> (83::int) AND 255 = py_ord CHR ''S''
   \<and> frame_values initial_state
       \<lparr>shape_height = 720, shape_width = 1280,
        detections = [[\<lparr>cls = 44, x1 = 10, y1 = 400, x2 = 60, y2 = 480\<rparr>,
                       \<lparr>cls = 38, x1 = 300, y1 = 500, x2 = 350, y2 = 580\<rparr>]],
        waitKey = 83\<rparr> = Inr (0, 21)
   \<and> loop_body initial_state
       \<lparr>shape_height = 720, shape_width = 1280,
        detections = [[\<lparr>cls = 44, x1 = 10, y1 = 400, x2 = 60, y2 = 480\<rparr>,
                       \<lparr>cls = 38, x1 = 300, y1 = 500, x2 = 350, y2 = 580\<rparr>]],
        waitKey = 83\<rparr>
     = Inr (\<lparr>game_over = True, winner_message = ''Player wins!''\<rparr>, False)"
proof -
  let ?rs = "[[\<lparr>cls = 44, x1 = 10, y1 = 400, x2 = 60, y2 = 480\<rparr>,
       \<lparr>cls = 38, x1 = 300, y1 = 500, x2 = 350, y2 = 580\<rparr>]]"
  let ?f = "\<lparr>shape_height = 720, shape_width = 1280, detections = ?rs, waitKey = 83\<rparr>"
  have a: "aggregate (shape_width ?f) (shape_height ?f) (detections ?f)
      = Inr ([], [''KC'', ''AH''])" by code_simp
  have k: "waitKey ?f AND 255 = py_ord CHR ''S''" by simp
  have v: "calculate_blackjack_value [''KC'', ''AH''] = Inr 21" by code_simp
  have i: "\<not> game_over initial_state" by (simp add: initial_state_def)
  from end_consumes_frame_values [OF a k, of initial_state] obtain dv pv where
    "frame_values initial_state ?f = Inr (dv, pv)"
    "loop_body initial_state ?f
       = Inr (\<lparr>game_over = True, winner_message = decide_winner dv pv\<rparr>, False)"
    "dv = 0" "calculate_blackjack_value [''KC'', ''AH''] = Inr pv"
    using i by auto
  moreover have "decide_winner 0 21 = ''Player wins!''" by (simp add: decide_winner_def)
  ultimately show ?thesis using a k v by simp
qed

text \<open>
  Claim C10. When the key \<^verbatim>\<open>S\<close> (End) comes in a frame while the game is already over,
  the hand values of the frame are not computed: both stay 0, and the winner message
  becomes the draw, whatever hands the frame shows.
\<close>

theorem end_while_ended_is_draw:
  assumes "game_over st"
    and "aggregate (shape_width f) (shape_height f) (detections f) = Inr hands"
    and "waitKey f AND 255 = py_ord CHR ''S''"
  shows "frame_values st f = Inr (0, 0)
       \<and> loop_body st f = Inr (\<lparr>game_over = True, winner_message = ''It's a draw!''\<rparr>, False)"
proof -
  from frame_values_valid [OF assms(2), of st] assms(1)
  have fv: "frame_values st f = Inr (0, 0)" by auto
  then show ?thesis
    using assms(3) by (simp add: loop_body_def on_key_S decide_winner_def)
qed

text \<open>The same frame in a game that is already over: the message becomes the draw.\<close>

theorem end_while_ended_is_draw_witness:
  "game_over \<lparr>game_over = True, winner_message = ''Dealer wins!''\<rparr>
   \<and> aggregate 1280 720
     [[\<lparr>cls = 44, x1 = 10, y1 = 400, x2 = 60, y2 = 480\<rparr>,
       \<lparr>cls = 38, x1 = 300, y1 = 500, x2 = 350, y2 = 580\<rparr>]]
     = Inr ([], [''KC'', ''AH''])
   \<and> (83::int) AND 255 = py_ord CHR ''S''
   \<and> loop_body \<lparr>game_over = True, winner_message = ''Dealer wins!''\<rparr>
       \<lparr>shape_height = 720, shape_width = 1280,
        detections = [[\<lparr>cls = 44, x1 = 10, y1 = 400, x2 = 60, y2 = 480\<rparr>,
                       \<lparr>cls = 38, x1 = 300, y1 = 500, x2 = 350, y2 = 580\<rparr>]],
        waitKey = 83\<rparr>
     = Inr (\<lparr>game_over = True, winner_message = ''It's a draw!''\<rparr>, False)"
proof -
  let ?rs = "[[\<lparr>cls = 44, x1 = 10, y1 = 400, x2 = 60, y2 = 480\<rparr>,
       \<lparr>cls = 38, x1 = 300, y1 = 500, x2 = 350, y2 = 580\<rparr>]]"
  let ?f = "\<lparr>shape_height = 720, shape_width = 1280, detections = ?rs, waitKey = 83\<rparr>"
  let ?st = "\<lparr>game_over = True, winner_message = ''Dealer wins!''\<rparr>"
  have g: "game_over ?st" by simp
  have a: "aggregate (shape_width ?f) (shape_height ?f) (detections ?f)
      = Inr ([], [''KC'', ''AH''])" by code_simp
  have k: "waitKey ?f AND 255 = py_ord CHR ''S''" by simp
  from end_while_ended_is_draw [OF g a k] a k show ?thesis by simp
qed

section \<open>Claims about the zones\<close>

text \<open>
  Claim C4, as amended. Every top edge is given exactly one zone, never none: the dealer's
  when it is less than the frame height halved and rounded down
  (\<^verbatim>\<open>height // 2\<close>), the player's otherwise. For an even frame height this is the
  zone of the specification, which halves the height exactly.
\<close>

theorem classify_floor_half:
  "(classify topEdgeY width frameHeight = Some Dealer \<longleftrightarrow> topEdgeY < frameHeight div 2)
   \<and> (classify topEdgeY width frameHeight = Some Player \<longleftrightarrow> frameHeight div 2 \<le> topEdgeY)
   \<and> classify topEdgeY width frameHeight \<noteq> None
   \<and> (even frameHeight \<longrightarrow>
        classify topEdgeY width frameHeight
          = Some (spec_classify (real_of_int topEdgeY) (real_of_int frameHeight)))"
proof -
  have "topEdgeY < frameHeight div 2 \<longleftrightarrow> real_of_int topEdgeY < real_of_int frameHeight / 2"
    if "even frameHeight"
  proof -
    from that obtain k where k: "frameHeight = 2 * k" by (elim evenE)
    show ?thesis by (simp add: k)
  qed
  then show ?thesis by (auto simp: classify_eq spec_classify_def)
qed

text \<open>
  Claim C4 as stated fails for an odd frame height: in a frame of height 5 the top edge 2
  is less than 5 / 2, so the specification's zone is the dealer's, and the program gives
  the box to the player, since \<^verbatim>\<open>5 // 2\<close> is 2.
\<close>

theorem classify_counterexample:
  "(0::int) \<le> 2 \<and> (2::int) < 5
   \<and> spec_classify (real_of_int 2) (real_of_int 5) = Dealer
   \<and> classify 2 1280 5 = Some Player"
  by (simp add: spec_classify_def classify_eq)

text \<open>In a frame of height 720 the rows 359 and 360 lie on the two sides of the boundary.\<close>

theorem classify_floor_half_witness:
  "even (720::int) \<and> classify 359 1280 720 = Some Dealer \<and> classify 360 1280 720 = Some Player
   \<and> spec_classify (real_of_int 359) (real_of_int 720) = Dealer"
  using classify_floor_half [of 359 1280 720] classify_floor_half [of 360 1280 720]
  by (simp add: spec_classify_def)

end
